theory Spec2Isabelle
  imports Main "HOL-Library.Multiset" "HOL-Library.AList"
begin

section \<open>Strings\<close>

text \<open>
  A Python \<open>str\<close> is modelled as a \<^typ>\<open>string\<close>: each \<^typ>\<open>char\<close> is read as
  one of the code points U+0000..U+00FF, so \<open>CHR 0xEB\<close> is the single character
  e-diaeresis. On this range \<open>str.lower\<close> is the function \<open>lower\<close> below. Byte
  strings (\<open>response.content\<close>) are lists of the same 8-bit characters.
\<close>

definition startswith :: "string \<Rightarrow> string \<Rightarrow> bool" where
  "startswith s p = (take (length p) s = p)"

definition endswith :: "string \<Rightarrow> string \<Rightarrow> bool" where
  "endswith s p = (length p \<le> length s \<and> drop (length s - length p) s = p)"

definition lstrip :: "string \<Rightarrow> string \<Rightarrow> string" where
  "lstrip s chars = dropWhile (\<lambda>c. c \<in> set chars) s"

definition rstrip :: "string \<Rightarrow> string \<Rightarrow> string" where
  "rstrip s chars = rev (dropWhile (\<lambda>c. c \<in> set chars) (rev s))"

definition lower_char :: "char \<Rightarrow> char" where
  "lower_char c =
     (let n = (of_char c :: nat) in
        if (65 \<le> n \<and> n \<le> 90) \<or> (192 \<le> n \<and> n \<le> 222 \<and> n \<noteq> 215)
        then char_of (n + 32) else c)"

definition lower :: "string \<Rightarrow> string" where
  "lower s = map lower_char s"

text \<open>\<open>s.split(sep)\<close> for a one-character separator: never the empty list.\<close>

fun str_split :: "char \<Rightarrow> string \<Rightarrow> string list" where
  "str_split sep [] = [[]]"
| "str_split sep (c # cs) =
     (if c = sep then [] # str_split sep cs
      else (case str_split sep cs of
              [] \<Rightarrow> [[c]]
            | p # ps \<Rightarrow> (c # p) # ps))"

subsection \<open>sanitize\_image\_name\<close>

text \<open>
  \<open>re.sub(r"\?.*", "", image_url)\<close>: a match starts at a question mark and runs over
  every following character that is not a line feed (\<open>.\<close> does not match \<open>\n\<close>);
  the scan then goes on after the match. The flag says whether the scan is inside a
  match.
\<close>

fun re_sub_query :: "bool \<Rightarrow> string \<Rightarrow> string" where
  "re_sub_query inside [] = []"
| "re_sub_query inside (c # cs) =
     (if inside then
        (if c = CHR 0x0A then c # re_sub_query False cs else re_sub_query True cs)
      else if c = CHR ''?'' then re_sub_query True cs
      else c # re_sub_query False cs)"

text \<open>\<open>os.path.basename\<close> (POSIX): what follows the last slash.\<close>

definition basename :: "string \<Rightarrow> string" where
  "basename p = rev (takeWhile (\<lambda>c. c \<noteq> CHR ''/'') (rev p))"

text \<open>The character class \<open>[a-zA-Z0-9\-.]\<close>.\<close>

definition name_char :: "char \<Rightarrow> bool" where
  "name_char c =
     (let n = (of_char c :: nat) in
        (97 \<le> n \<and> n \<le> 122) \<or> (65 \<le> n \<and> n \<le> 90) \<or> (48 \<le> n \<and> n \<le> 57)
        \<or> c = CHR ''-'' \<or> c = CHR ''.'')"

definition re_sub_invalid :: "string \<Rightarrow> string" where
  "re_sub_invalid s = map (\<lambda>c. if name_char c then c else CHR ''_'') s"

definition sanitize_image_name :: "string \<Rightarrow> string" where
  "sanitize_image_name image_url =
     re_sub_invalid (basename (re_sub_query False image_url))"

subsection \<open>resolve\_url\<close>

definition resolve_url :: "string \<Rightarrow> string \<Rightarrow> string" where
  "resolve_url url base_url =
     (if \<not> (startswith url ''http'' \<or> startswith url ''https'') then
        (if startswith url ''//'' then ''https:'' @ url
         else if startswith url ''/'' then rstrip base_url ''/'' @ ''/'' @ lstrip url ''/''
         else rstrip base_url ''/'' @ ''/'' @ url)
      else url)"

section \<open>Exceptions\<close>

text \<open>
  \<open>RequestException\<close> stands for \<open>requests.RequestException\<close> and its subclasses
  (connection errors, and the \<open>HTTPError\<close> of \<open>raise_for_status\<close>); \<open>OSError\<close> for
  every error of a filesystem call.
\<close>

datatype exn =
    RequestException
  | UnidentifiedImageError
  | OSError
  | IndexError
  | HTTPException nat string

text \<open>
  \<open>base_domain = "https://" + url.split('/')[2]\<close> of \<open>scrape\<close>: the index is out of
  range when the URL has fewer than two slashes.
\<close>

definition base_domain :: "string \<Rightarrow> exn + string" where
  "base_domain url =
     (let parts = str_split CHR ''/'' url in
        if length parts \<le> 2 then Inl IndexError else Inr (''https://'' @ parts ! 2))"

section \<open>The filesystem\<close>

text \<open>
  The filesystem primitives the code calls (\<open>os.path.isdir\<close>, \<open>os.makedirs\<close>,
  \<open>os.listdir\<close>, \<open>open(..., 'wb')\<close>) act on a store of nodes keyed by the list of
  path components from the working directory, which is taken to be the root
  (\<open>[]\<close>, always a directory); there are no symbolic links. A path is resolved
  component by component as POSIX does: every component but the last must be an
  existing directory, \<open>.\<close> and the empty component stay, \<open>..\<close> goes to the parent.
  \<open>denied\<close> lists the places where the operating system refuses to create or
  write (permissions, quota). Every failure is the one exception \<open>OSError\<close>.
\<close>

datatype node = File string | Dir

record world =
  nodes :: "(string list \<times> node) list"
  denied :: "string list list"
  requests :: "string list"

text \<open>\<open>requests\<close> is the log of every \<open>session.get\<close>, oldest first.\<close>

definition node_at :: "world \<Rightarrow> string list \<Rightarrow> node option" where
  "node_at w cs = (if cs = [] then Some Dir else map_of (nodes w) cs)"

definition walk_step :: "world \<Rightarrow> string list option \<Rightarrow> string \<Rightarrow> string list option" where
  "walk_step w st c =
     (case st of
        None \<Rightarrow> None
      | Some cur \<Rightarrow>
          if node_at w cur \<noteq> Some Dir then None
          else if c = [] \<or> c = ''.'' then Some cur
          else if c = ''..'' then Some (butlast cur)
          else Some (cur @ [c]))"

definition resolve_path :: "world \<Rightarrow> string \<Rightarrow> string list option" where
  "resolve_path w p =
     (if p = [] then None else foldl (walk_step w) (Some []) (str_split CHR ''/'' p))"

definition isdir :: "world \<Rightarrow> string \<Rightarrow> bool" where
  "isdir w p = (case resolve_path w p of None \<Rightarrow> False | Some cs \<Rightarrow> node_at w cs = Some Dir)"

text \<open>
  \<open>with open(path, 'wb') as f: f.write(content)\<close>, as one step: the file is created
  or replaced by the whole content, or the call raises and nothing changes (a write
  cut short after the file was opened, as on a full disk, is not modelled).
\<close>

definition write_file :: "world \<Rightarrow> string \<Rightarrow> string \<Rightarrow> exn + world" where
  "write_file w p content =
     (case resolve_path w p of
        None \<Rightarrow> Inl OSError
      | Some cs \<Rightarrow>
          if node_at w cs = Some Dir \<or> node_at w (butlast cs) \<noteq> Some Dir \<or> cs \<in> set (denied w)
          then Inl OSError
          else Inr (w\<lparr>nodes := AList.update cs (File content) (nodes w)\<rparr>))"


text \<open>
  \<open>os.makedirs(path, exist_ok=True)\<close>: walks the path and creates each missing
  directory on the way. The directories made before a failure stay.
\<close>

definition mk_step :: "world \<times> string list option \<Rightarrow> string \<Rightarrow> world \<times> string list option" where
  "mk_step st c =
     (case st of
        (w, None) \<Rightarrow> (w, None)
      | (w, Some cur) \<Rightarrow>
          if node_at w cur \<noteq> Some Dir then (w, None)
          else if c = [] \<or> c = ''.'' then (w, Some cur)
          else if c = ''..'' then (w, Some (butlast cur))
          else (case node_at w (cur @ [c]) of
                  Some Dir \<Rightarrow> (w, Some (cur @ [c]))
                | Some (File b) \<Rightarrow> (w, None)
                | None \<Rightarrow>
                    if cur @ [c] \<in> set (denied w) then (w, None)
                    else (w\<lparr>nodes := AList.update (cur @ [c]) Dir (nodes w)\<rparr>, Some (cur @ [c]))))"

definition makedirs :: "world \<Rightarrow> string \<Rightarrow> (exn + unit) \<times> world" where
  "makedirs w p =
     (if p = [] then (Inl OSError, w)
      else (case foldl mk_step (w, Some []) (str_split CHR ''/'' p) of
              (w', None) \<Rightarrow> (Inl OSError, w')
            | (w', Some cs) \<Rightarrow>
                if node_at w' cs = Some Dir then (Inr (), w') else (Inl OSError, w')))"

text \<open>\<open>os.listdir\<close>: the names of the entries of a directory, files and directories.\<close>

definition listdir :: "world \<Rightarrow> string \<Rightarrow> exn + string list" where
  "listdir w p =
     (case resolve_path w p of
        None \<Rightarrow> Inl OSError
      | Some d \<Rightarrow>
          if node_at w d \<noteq> Some Dir then Inl OSError
          else Inr (remdups (map (\<lambda>kn. last (fst kn))
                      (filter (\<lambda>kn. fst kn \<noteq> [] \<and> butlast (fst kn) = d) (nodes w)))))"

text \<open>\<open>os.path.join\<close> (POSIX) of two parts.\<close>

definition path_join :: "string \<Rightarrow> string \<Rightarrow> string" where
  "path_join a b =
     (if startswith b ''/'' then b
      else if a = [] \<or> endswith a ''/'' then a @ b
      else a @ ''/'' @ b)"

section \<open>The collaborators\<close>

text \<open>
  What the code gets from its libraries is a parameter of the model: the answer of
  the network to a request (\<open>http\<close>), the image decoder \<open>Image.open\<close> with the
  format tag of the decoded image (\<open>pil_open\<close>), the HTML parser (\<open>html_parser\<close>,
  the tags of the document in document order), \<open>hashlib.md5(...).hexdigest()\<close>,
  the index \<open>random.choice\<close> picks, and the order in which the pool's workers
  complete (\<open>completion\<close>).
\<close>

datatype http_result = ConnectionFailed | Response nat string

record session =
  user_agent :: string
  referer :: string

record tag =
  tag_name :: string
  attrs :: "(string \<times> string) list"

record env =
  http :: "session \<Rightarrow> string \<Rightarrow> http_result"
  pil_open :: "string \<Rightarrow> exn + string"
  html_parser :: "string \<Rightarrow> tag list"
  md5_hexdigest :: "string \<Rightarrow> string"
  random_choice :: nat
  completion :: "nat list"

definition user_agents :: "string list" where
  "user_agents =
     [''Mozilla/5.0 (Windows NT 10.0; Win64; x64) AppleWebKit/537.36 (KHTML, like Gecko) Chrome/91.0.4472.124 Safari/537.36'',
      ''Mozilla/5.0 (Macintosh; Intel Mac OS X 10_15_7) AppleWebKit/537.36 (KHTML, like Gecko) Chrome/93.0.4577.82 Safari/537.36'',
      ''Mozilla/5.0 (Linux; Android 10; SM-G973F) AppleWebKit/537.36 (KHTML, like Gecko) Chrome/93.0.4577.82 Mobile Safari/537.36'',
      ''Mozilla/5.0 (Linux; Android 12; Pixel 5) AppleWebKit/537.36 (KHTML, like Gecko) Chrome/93.0.4577.82 Mobile Safari/537.36'']"

definition random_user_agent :: "env \<Rightarrow> string" where
  "random_user_agent e = user_agents ! (random_choice e mod length user_agents)"

text \<open>\<open>url.encode()\<close>: UTF-8 of the code points below 256.\<close>

definition encode :: "string \<Rightarrow> string" where
  "encode s =
     concat (map (\<lambda>c. let n = (of_char c :: nat) in
                    if n < 128 then [c]
                    else [char_of (192 + n div 64), char_of (128 + n mod 64)]) s)"

definition sanitize_url :: "env \<Rightarrow> string \<Rightarrow> string" where
  "sanitize_url e url = md5_hexdigest e (encode url)"

text \<open>
  \<open>response = session.get(url); response.raise_for_status()\<close>: the request is
  logged; a connection failure and a status from 400 to 599 raise a
  \<open>RequestException\<close>, any other answer gives \<open>response.content\<close>.
\<close>

definition fetch :: "env \<Rightarrow> session \<Rightarrow> string \<Rightarrow> exn + string" where
  "fetch e s url =
     (case http e s url of
        ConnectionFailed \<Rightarrow> Inl RequestException
      | Response status content \<Rightarrow>
          if 400 \<le> status \<and> status < 600 then Inl RequestException else Inr content)"

definition logged :: "world \<Rightarrow> string \<Rightarrow> world" where
  "logged w url = w\<lparr>requests := requests w @ [url]\<rparr>"

section \<open>The fetch-validate worker\<close>

definition accepted_formats :: "string list" where
  "accepted_formats = [''JPEG'', ''PNG'', ''GIF'', ''BMP'', ''WEBP'']"

text \<open>
  The whole body is inside \<open>try ... except Exception\<close>: an exception of the request,
  of the decoder or of the write ends in \<open>return None\<close>.
\<close>

definition download_image_if_valid ::
  "env \<Rightarrow> session \<Rightarrow> string \<Rightarrow> string \<Rightarrow> world \<Rightarrow> string option \<times> world" where
  "download_image_if_valid e s image_url save_path w =
     (let w1 = logged w image_url in
        case fetch e s image_url of
          Inl ex \<Rightarrow> (None, w1)
        | Inr content \<Rightarrow>
            (case pil_open e content of
               Inl ex \<Rightarrow> (None, w1)
             | Inr fmt \<Rightarrow>
                 if fmt \<in> set accepted_formats then
                   (case write_file w1 save_path content of
                      Inl ex \<Rightarrow> (None, w1)
                    | Inr w2 \<Rightarrow> (Some image_url, w2))
                 else (None, w1)))"

section \<open>The pipeline\<close>

definition image_extensions :: "string list" where
  "image_extensions = [''.jpg'', ''.jpeg'', ''.png'', ''.gif'', ''.bmp'', ''.webp'']"

definition has_image_extension :: "string \<Rightarrow> bool" where
  "has_image_extension name = list_ex (\<lambda>ext. endswith (lower name) ext) image_extensions"

text \<open>
  The candidates: for each \<open>img\<close> and \<open>a\<close> tag in document order, the value of \<open>href\<close>
  and then of \<open>src\<close>, when it is there, not empty, and ends in an image extension.
\<close>

definition tag_candidates :: "tag \<Rightarrow> string list" where
  "tag_candidates t =
     concat (map (\<lambda>attr. case map_of (attrs t) attr of
                            None \<Rightarrow> []
                          | Some url \<Rightarrow> if url \<noteq> [] \<and> has_image_extension url then [url] else [])
               [''href'', ''src''])"

definition potential_image_urls :: "tag list \<Rightarrow> string list" where
  "potential_image_urls soup =
     concat (map tag_candidates
               (filter (\<lambda>t. tag_name t = ''img'' \<or> tag_name t = ''a'') soup))"

text \<open>
  The worker pool. Every submitted job runs, each as one step, in the order in which
  the jobs complete: \<open>completion_order\<close> turns the schedule of the environment into a
  permutation of the job indices (the indices the schedule names, in its order, then
  the others). \<open>run_jobs\<close> gives the results in that order, as \<open>as_completed\<close> does.
\<close>

definition completion_order :: "nat list \<Rightarrow> nat \<Rightarrow> nat list" where
  "completion_order sched n =
     (let named = remdups (filter (\<lambda>i. i < n) sched)
      in named @ filter (\<lambda>i. i \<notin> set named) [0..<n])"

fun run_jobs ::
  "env \<Rightarrow> session \<Rightarrow> (string \<times> string) list \<Rightarrow> world \<Rightarrow> string option list \<times> world" where
  "run_jobs e s [] w = ([], w)"
| "run_jobs e s (j # js) w =
     (case download_image_if_valid e s (fst j) (snd j) w of
        (r, w1) \<Rightarrow> (case run_jobs e s js w1 of (rs, w2) \<Rightarrow> (r # rs, w2)))"

text \<open>\<open>if result:\<close> holds for a string that is not \<open>None\<close> and not empty.\<close>

definition truthy :: "string option \<Rightarrow> bool" where
  "truthy r = (case r of None \<Rightarrow> False | Some u \<Rightarrow> u \<noteq> [])"

definition jobs_of :: "string list \<Rightarrow> string \<Rightarrow> string \<Rightarrow> (string \<times> string) list" where
  "jobs_of urls base_url local_download_path =
     map (\<lambda>url. (resolve_url url base_url,
                  path_join local_download_path (sanitize_image_name url))) urls"

definition scrape_images ::
  "env \<Rightarrow> tag list \<Rightarrow> string \<Rightarrow> session \<Rightarrow> string \<Rightarrow> world \<Rightarrow> (exn + string list) \<times> world" where
  "scrape_images e soup base_url s download_dir w =
     (let urls = potential_image_urls soup;
          local_download_path = path_join ''downloads'' download_dir
      in case makedirs w local_download_path of
           (Inl ex, w1) \<Rightarrow> (Inl ex, w1)
         | (Inr u, w1) \<Rightarrow>
             (let futures = jobs_of urls base_url local_download_path;
                  order = completion_order (completion e) (length futures)
              in case run_jobs e s (map (\<lambda>i. futures ! i) order) w1 of
                   (results, w2) \<Rightarrow> (Inr (map the (filter truthy results)), w2)))"

definition location_key :: string where
  "location_key = ''Images are available for download at''"

definition location :: "string \<Rightarrow> (string \<times> string) list" where
  "location hashed_dir = [(location_key, ''http://127.0.0.1:8000/api/downloads/'' @ hashed_dir)]"

text \<open>The response of \<open>scrape\<close> is a dictionary: \<open>{}\<close> is the empty list.\<close>

definition scrape :: "env \<Rightarrow> string \<Rightarrow> world \<Rightarrow> (exn + (string \<times> string) list) \<times> world" where
  "scrape e url w =
     (let s = \<lparr>user_agent = random_user_agent e, referer = url\<rparr>;
          w1 = logged w url
      in case fetch e s url of
           Inl ex \<Rightarrow> (Inr [], w1)
         | Inr content \<Rightarrow>
             (let soup = html_parser e content;
                  hashed_dir = sanitize_url e url
              in case base_domain url of
                   Inl ex \<Rightarrow> (Inl ex, w1)
                 | Inr base \<Rightarrow>
                     (case scrape_images e soup base s hashed_dir w1 of
                        (Inl ex, w2) \<Rightarrow> (Inl ex, w2)
                      | (Inr imgs, w2) \<Rightarrow> (Inr (location hashed_dir), w2))))"

definition scrape_images_endpoint ::
  "env \<Rightarrow> string \<Rightarrow> world \<Rightarrow> (exn + (string \<times> string) list) \<times> world" where
  "scrape_images_endpoint e url w =
     (let hashed_dir = sanitize_url e url
      in if isdir w (path_join ''downloads'' hashed_dir) then (Inr (location hashed_dir), w)
         else scrape e url w)"

definition get_downloads :: "world \<Rightarrow> string \<Rightarrow> exn + (string \<times> string list) list" where
  "get_downloads w hash_value =
     (let download_path = path_join ''downloads'' hash_value
      in if \<not> isdir w download_path then Inl (HTTPException 404 ''Directory not found'')
         else (case listdir w download_path of
                 Inl ex \<Rightarrow> Inl ex
               | Inr names \<Rightarrow>
                   (let image_files =
                          map (\<lambda>filename. ''/downloads/'' @ hash_value @ ''/'' @ filename)
                            (filter has_image_extension names)
                    in if image_files = []
                       then Inl (HTTPException 404 ''No images found in the directory'')
                       else Inr [(''images'', image_files)])))"

section \<open>Predicates of the specification\<close>

text \<open>
  \<open>valid_image\<close>: the request for the URL succeeds and its bytes decode as an image
  whose format tag is one of the accepted ones.
\<close>

definition valid_image :: "env \<Rightarrow> session \<Rightarrow> string \<Rightarrow> bool" where
  "valid_image e s url =
     (case fetch e s url of
        Inl ex \<Rightarrow> False
      | Inr content \<Rightarrow>
          (case pil_open e content of
             Inl ex \<Rightarrow> False
           | Inr fmt \<Rightarrow> fmt \<in> set accepted_formats))"

text \<open>
  \<open>writable\<close>: the path can be opened for writing, that is, it resolves, it is not a
  directory, its parent is a directory and the place is not denied. It holds exactly
  when \<open>write_file\<close> succeeds (\<open>write_file_writable\<close> below).
\<close>

definition writable :: "world \<Rightarrow> string \<Rightarrow> bool" where
  "writable w p =
     (case resolve_path w p of
        None \<Rightarrow> False
      | Some cs \<Rightarrow> node_at w cs \<noteq> Some Dir \<and> node_at w (butlast cs) = Some Dir
                    \<and> cs \<notin> set (denied w))"

text \<open>
  Two worlds with the same directories and the same denied places (\<open>same_dirs\<close>),
  and a world that keeps every node of another (\<open>grows\<close>).
\<close>

definition same_dirs :: "world \<Rightarrow> world \<Rightarrow> bool" where
  "same_dirs w w' =
     (denied w = denied w' \<and> (\<forall>cs. (node_at w cs = Some Dir) = (node_at w' cs = Some Dir)))"

definition grows :: "world \<Rightarrow> world \<Rightarrow> bool" where
  "grows w w' =
     (denied w' = denied w \<and> requests w' = requests w
      \<and> (\<forall>k n. node_at w k = Some n \<longrightarrow> node_at w' k = Some n))"

section \<open>A sample site\<close>

text \<open>
  A small network, decoder and parser on which the theorems below are run. The page
  \<open>https://site.com/gallery\<close> has five candidates: two are images, one answers 404,
  one is an HTML page served at a \<open>.jpg\<close> path, one host cannot be reached. The page
  \<open>https://site.com/query\<close> has one candidate, \<open>/img/?f=g.gif\<close>, a valid image whose
  sanitized name is empty. The decoder knows GIF and TIFF by their first bytes; the
  two digests are the MD5 digests of the two page URLs.
\<close>

definition demo_http :: "session \<Rightarrow> string \<Rightarrow> http_result" where
  "demo_http s url =
     (if url = ''https://site.com/gallery'' then Response 200 ''<html>gallery</html>''
      else if url = ''https://site.com/query'' then Response 200 ''<html>query</html>''
      else if url = ''https://site.com/a.gif'' then Response 200 ''GIF89a-first''
      else if url = ''https://site.com/b.png'' then Response 404 ''<html>Not Found</html>''
      else if url = ''https://site.com/c.jpg'' then Response 200 ''<html>Sorry, no such image</html>''
      else if url = ''https://site.com/e.GIF'' then Response 200 ''GIF89a-second''
      else if url = ''https://site.com/img/?f=g.gif'' then Response 200 ''GIF89a-third''
      else if url = ''https://site.com/t.png'' then Response 200 ''II*-tiff''
      else ConnectionFailed)"

definition demo_pil_open :: "string \<Rightarrow> exn + string" where
  "demo_pil_open content =
     (if startswith content ''GIF8'' then Inr ''GIF''
      else if startswith content ''II*'' then Inr ''TIFF''
      else Inl UnidentifiedImageError)"

definition gallery_soup :: "tag list" where
  "gallery_soup =
     [\<lparr>tag_name = ''img'', attrs = [(''src'', ''/a.gif'')]\<rparr>,
      \<lparr>tag_name = ''p'', attrs = [(''src'', ''x.png'')]\<rparr>,
      \<lparr>tag_name = ''img'', attrs = [(''alt'', ''b''), (''src'', ''b.png'')]\<rparr>,
      \<lparr>tag_name = ''a'', attrs = [(''href'', ''/c.jpg'')]\<rparr>,
      \<lparr>tag_name = ''a'', attrs = [(''href'', ''/about.html'')]\<rparr>,
      \<lparr>tag_name = ''a'', attrs = [(''href'', ''//cdn.site.com/d.gif'')]\<rparr>,
      \<lparr>tag_name = ''img'', attrs = [(''src'', ''https://site.com/e.GIF'')]\<rparr>]"

definition query_soup :: "tag list" where
  "query_soup = [\<lparr>tag_name = ''a'', attrs = [(''href'', ''/img/?f=g.gif'')]\<rparr>]"

definition demo_html_parser :: "string \<Rightarrow> tag list" where
  "demo_html_parser content =
     (if content = ''<html>gallery</html>'' then gallery_soup
      else if content = ''<html>query</html>'' then query_soup
      else [])"

definition demo_md5 :: "string \<Rightarrow> string" where
  "demo_md5 b =
     (if b = ''https://site.com/gallery'' then ''229442d1a65f7a06b993519ba8d68246''
      else if b = ''https://site.com/query'' then ''2e3f09d79f7403d190ffb0693a51c312''
      else ''d41d8cd98f00b204e9800998ecf8427e'')"

definition demo_env :: env where
  "demo_env =
     \<lparr>http = demo_http, pil_open = demo_pil_open, html_parser = demo_html_parser,
      md5_hexdigest = demo_md5, random_choice = 2, completion = [4, 1]\<rparr>"

definition demo_session :: session where
  "demo_session = \<lparr>user_agent = random_user_agent demo_env, referer = ''https://site.com/gallery''\<rparr>"

definition empty_world :: world where
  "empty_world = \<lparr>nodes = [], denied = [], requests = []\<rparr>"

definition blocked_world :: world where
  "blocked_world = \<lparr>nodes = [([''downloads''], File ''not a directory'')], denied = [], requests = []\<rparr>"

definition gallery_store :: world where
  "gallery_store =
     \<lparr>nodes = [([''downloads''], Dir),
               ([''downloads'', ''229442d1a65f7a06b993519ba8d68246''], Dir)],
      denied = [], requests = []\<rparr>"

definition query_store :: world where
  "query_store =
     \<lparr>nodes = [([''downloads''], Dir),
               ([''downloads'', ''2e3f09d79f7403d190ffb0693a51c312''], Dir)],
      denied = [], requests = [''https://site.com/query'']\<rparr>"

definition gallery_scraped :: world where
  "gallery_scraped =
     \<lparr>nodes = [([''downloads''], Dir),
               ([''downloads'', ''229442d1a65f7a06b993519ba8d68246''], Dir),
               ([''downloads'', ''229442d1a65f7a06b993519ba8d68246'', ''e.GIF''],
                File ''GIF89a-second''),
               ([''downloads'', ''229442d1a65f7a06b993519ba8d68246'', ''a.gif''],
                File ''GIF89a-first'')],
      denied = [],
      requests = [''https://site.com/gallery'', ''https://site.com/e.GIF'',
                  ''https://site.com/b.png'', ''https://site.com/a.gif'',
                  ''https://site.com/c.jpg'', ''https://cdn.site.com/d.gif'']\<rparr>"

definition gallery_done :: world where
  "gallery_done =
     \<lparr>nodes = [([''downloads''], Dir),
               ([''downloads'', ''229442d1a65f7a06b993519ba8d68246''], Dir),
               ([''downloads'', ''229442d1a65f7a06b993519ba8d68246'', ''e.GIF''],
                File ''GIF89a-second''),
               ([''downloads'', ''229442d1a65f7a06b993519ba8d68246'', ''a.gif''],
                File ''GIF89a-first''),
               ([''downloads'', ''229442d1a65f7a06b993519ba8d68246'', ''notes.txt''],
                File ''seen'')],
      denied = [],
      requests = [''https://site.com/gallery'', ''https://site.com/e.GIF'',
                  ''https://site.com/b.png'', ''https://site.com/a.gif'',
                  ''https://site.com/c.jpg'', ''https://cdn.site.com/d.gif'']\<rparr>"

section \<open>Properties of the string functions\<close>

lemma re_sub_query_no_newline:
  "CHR 0x0A \<notin> set s \<Longrightarrow> re_sub_query True s = []"
  by (induction s) auto

lemma re_sub_query_takeWhile:
  "CHR 0x0A \<notin> set s \<Longrightarrow> re_sub_query False s = takeWhile (\<lambda>c. c \<noteq> CHR ''?'') s"
  by (induction s) (auto simp: re_sub_query_no_newline)

lemma re_sub_invalid_chars:
  "c \<in> set (re_sub_invalid s) \<Longrightarrow> name_char c \<or> c = CHR ''_''"
  by (auto simp: re_sub_invalid_def)

text \<open>
  C2 (amended). \<open>resolve_url\<close> joins a reference against the base string it is given,
  whatever that string is: the protocol-relative, the path-relative and the absolute
  rows of the table hold as written, but the root-relative reference \<open>/img/a.png\<close>
  against \<open>https://site.com/x/y\<close> gives \<open>https://site.com/x/y/img/a.png\<close>. The
  reduction of the page URL to scheme and host is made by the caller \<open>scrape\<close>
  (\<open>base_domain\<close>), and against that base the reference resolves to
  \<open>https://site.com/img/a.png\<close>.
\<close>

theorem resolve_url_table:
  "resolve_url ''//cdn.example.com/a.png'' ''https://site.com/x'' = ''https://cdn.example.com/a.png''
   \<and> resolve_url ''/img/a.png'' ''https://site.com/x/y'' = ''https://site.com/x/y/img/a.png''
   \<and> base_domain ''https://site.com/x/y'' = Inr ''https://site.com''
   \<and> resolve_url ''/img/a.png'' ''https://site.com'' = ''https://site.com/img/a.png''
   \<and> resolve_url ''a.png'' ''https://site.com/x/'' = ''https://site.com/x/a.png''
   \<and> resolve_url ''https://cdn.com/a.png'' ''https://site.com'' = ''https://cdn.com/a.png''"
  by (simp add: resolve_url_def startswith_def rstrip_def lstrip_def base_domain_def)

text \<open>
  C2 as stated fails: the second row of the table, with the base
  \<open>https://site.com/x/y\<close>, is not what \<open>resolve_url\<close> returns.
\<close>

theorem resolve_url_root_relative_counterexample:
  "resolve_url ''/img/a.png'' ''https://site.com/x/y'' \<noteq> ''https://site.com/img/a.png''"
  by (simp add: resolve_url_def startswith_def rstrip_def lstrip_def)

text \<open>
  C5 (amended). \<open>sanitize_image_name\<close> removes the query string, keeps what follows
  the last slash and replaces every character outside \<open>[A-Za-z0-9\-.]\<close> by one
  underscore: every character of the result is in that class or is an underscore; for
  a URL with no line feed the result is the replacement applied to the basename of
  the text before the first question mark; \<open>photo.jpg?size=large&v=2\<close> gives
  \<open>photo.jpg\<close>; and the name \<open>w\<close>, U+00EB, \<open>ird name!.png\<close> (e-diaeresis as the one character
  U+00EB) gives \<open>w_ird_name_.png\<close>, one underscore for the one character.
\<close>

theorem sanitize_image_name_spec:
  "(\<forall>c \<in> set (sanitize_image_name u). name_char c \<or> c = CHR ''_'')
   \<and> (CHR 0x0A \<notin> set u \<longrightarrow>
        sanitize_image_name u =
          map (\<lambda>c. if name_char c then c else CHR ''_'')
            (basename (takeWhile (\<lambda>c. c \<noteq> CHR ''?'') u)))
   \<and> sanitize_image_name ''photo.jpg?size=large&v=2'' = ''photo.jpg''
   \<and> sanitize_image_name (''w'' @ [CHR 0xEB] @ ''ird name!.png'') = ''w_ird_name_.png''"
proof -
  have a: "\<forall>c \<in> set (sanitize_image_name u). name_char c \<or> c = CHR ''_''"
    unfolding sanitize_image_name_def using re_sub_invalid_chars by blast
  have b: "CHR 0x0A \<notin> set u \<longrightarrow>
        sanitize_image_name u =
          map (\<lambda>c. if name_char c then c else CHR ''_'')
            (basename (takeWhile (\<lambda>c. c \<noteq> CHR ''?'') u))"
    by (simp add: sanitize_image_name_def re_sub_invalid_def re_sub_query_takeWhile)
  have c: "sanitize_image_name ''photo.jpg?size=large&v=2'' = ''photo.jpg''"
    by (simp add: sanitize_image_name_def re_sub_invalid_def basename_def name_char_def)
  have d: "sanitize_image_name (''w'' @ [CHR 0xEB] @ ''ird name!.png'') = ''w_ird_name_.png''"
    by (simp add: sanitize_image_name_def re_sub_invalid_def basename_def name_char_def)
  from a b c d show ?thesis by blast
qed

theorem sanitize_image_name_spec_witness:
  "CHR 0x0A \<notin> set ''img/a b.png?x=1''
   \<and> sanitize_image_name ''img/a b.png?x=1'' = ''a_b.png''
   \<and> list_all (\<lambda>c. name_char c \<or> c = CHR ''_'') (sanitize_image_name ''img/a b.png?x=1'')"
proof -
  have n: "CHR 0x0A \<notin> set ''img/a b.png?x=1''" by simp
  have e: "sanitize_image_name ''img/a b.png?x=1'' = ''a_b.png''"
    using sanitize_image_name_spec [of "''img/a b.png?x=1''"] n
    by (simp add: basename_def name_char_def)
  have l: "list_all (\<lambda>c. name_char c \<or> c = CHR ''_'') (sanitize_image_name ''img/a b.png?x=1'')"
    using sanitize_image_name_spec [of "''img/a b.png?x=1''"] by (simp add: list_all_iff)
  from n e l show ?thesis by blast
qed

text \<open>
  C5 as stated fails on its second example: the result has no letter \<open>e\<close> after the
  first underscore.
\<close>

theorem sanitize_image_name_counterexample:
  "sanitize_image_name (''w'' @ [CHR 0xEB] @ ''ird name!.png'') \<noteq> ''w_eird_name_.png''"
  by (simp add: sanitize_image_name_def re_sub_invalid_def basename_def name_char_def)

text \<open>
  C10. The test for an absolute URL is a prefix test on the text: every reference that
  begins with the four characters \<open>http\<close> is returned unchanged, whatever the base,
  and so is the path-relative name \<open>httpfoo.png\<close>.
\<close>

theorem resolve_url_http_prefix:
  "startswith url ''http'' \<Longrightarrow> resolve_url url base_url = url"
  by (simp add: resolve_url_def)

theorem resolve_url_http_prefix_witness:
  "startswith ''httpfoo.png'' ''http''
   \<and> resolve_url ''httpfoo.png'' ''https://site.com/x/'' = ''httpfoo.png''"
proof -
  have p: "startswith ''httpfoo.png'' ''http''" by (simp add: startswith_def)
  from p resolve_url_http_prefix [OF p, of "''https://site.com/x/''"] show ?thesis by simp
qed

section \<open>Properties of the filesystem\<close>

lemma same_dirs_refl: "same_dirs w w"
  by (simp add: same_dirs_def)

lemma same_dirs_trans: "same_dirs a b \<Longrightarrow> same_dirs b c \<Longrightarrow> same_dirs a c"
  by (simp add: same_dirs_def)

lemma same_dirs_logged: "same_dirs w (logged w u)"
  by (simp add: same_dirs_def logged_def node_at_def)

lemma walk_step_same: "same_dirs w w' \<Longrightarrow> walk_step w = walk_step w'"
  by (intro ext) (simp add: walk_step_def same_dirs_def split: option.splits)

lemma resolve_path_same: "same_dirs w w' \<Longrightarrow> resolve_path w p = resolve_path w' p"
  by (simp add: resolve_path_def walk_step_same)

lemma isdir_same: "same_dirs w w' \<Longrightarrow> isdir w p = isdir w' p"
  using resolve_path_same [of w w' p]
  by (auto simp: isdir_def same_dirs_def split: option.splits)

lemma isdir_logged: "isdir (logged w u) p = isdir w p"
  using isdir_same [OF same_dirs_logged, of w p u] by simp

lemma writable_same: "same_dirs w w' \<Longrightarrow> writable w p = writable w' p"
  using resolve_path_same [of w w' p]
  by (auto simp: writable_def same_dirs_def split: option.splits)

lemma writable_logged: "writable (logged w u) p = writable w p"
  using writable_same [OF same_dirs_logged, of w p u] by simp

lemma write_file_writable:
  "(\<exists>w'. write_file w p c = Inr w') = writable w p"
  by (auto simp: write_file_def writable_def split: option.splits)

lemma write_file_Inl_iff:
  "(write_file w p c = Inl ex) = (ex = OSError \<and> \<not> writable w p)"
  by (auto simp: write_file_def writable_def split: option.splits)

lemma write_file_Inr_writable:
  "write_file w p c = Inr w' \<Longrightarrow> writable w p"
  by (auto simp: write_file_def writable_def split: option.splits if_splits)

lemma write_file_same:
  assumes "write_file w p c = Inr w'"
  shows "same_dirs w w'" and "requests w' = requests w"
proof -
  from assms obtain cs where cs: "resolve_path w p = Some cs" "node_at w cs \<noteq> Some Dir"
    and w': "w' = w\<lparr>nodes := AList.update cs (File c) (nodes w)\<rparr>"
    by (auto simp: write_file_def split: option.splits if_splits)
  from cs have ne: "cs \<noteq> []" by (auto simp: node_at_def)
  show "same_dirs w w'"
    using cs ne by (auto simp: same_dirs_def w' node_at_def update_conv')
  show "requests w' = requests w" by (simp add: w')
qed


lemma listdir_isdir: "isdir w p \<Longrightarrow> \<exists>names. listdir w p = Inr names"
  by (auto simp: isdir_def listdir_def split: option.splits)

text \<open>
  \<open>makedirs\<close> only adds directories, and afterwards the path is a directory exactly
  when the call returned without raising.
\<close>

lemma mk_fold_None: "foldl mk_step (w, None) cs = (w, None)"
  by (induction cs) (simp_all add: mk_step_def)

lemma walk_fold_None: "foldl (walk_step w) None cs = None"
  by (induction cs) (simp_all add: walk_step_def)

lemma grows_refl: "grows w w"
  by (simp add: grows_def)

lemma grows_trans: "grows a b \<Longrightarrow> grows b c \<Longrightarrow> grows a c"
  by (simp add: grows_def)

lemma mk_step_grows: "mk_step (w, st) c = (w', st') \<Longrightarrow> grows w w'"
  by (auto simp: mk_step_def grows_def node_at_def update_conv'
        split: option.splits node.splits if_splits)

lemma mk_fold_grows: "foldl mk_step (w, st) cs = (w', st') \<Longrightarrow> grows w w'"
proof (induction cs arbitrary: w st)
  case Nil
  then show ?case by (simp add: grows_refl)
next
  case (Cons c cs)
  obtain w1 st1 where m: "mk_step (w, st) c = (w1, st1)" by (cases "mk_step (w, st) c")
  with Cons.prems have "foldl mk_step (w1, st1) cs = (w', st')" by simp
  from Cons.IH [OF this] mk_step_grows [OF m] show ?case by (rule grows_trans [rotated])
qed

lemma mk_fold_walk:
  "foldl mk_step (w, Some cur) cs = (w', r) \<Longrightarrow>
     (case r of
        Some t \<Rightarrow> foldl (walk_step w') (Some cur) cs = Some t
      | None \<Rightarrow> (case foldl (walk_step w') (Some cur) cs of
                   None \<Rightarrow> True
                 | Some t \<Rightarrow> node_at w' t \<noteq> Some Dir))"
proof (induction cs arbitrary: w cur)
  case Nil
  then show ?case by auto
next
  case (Cons c cs)
  obtain w1 st1 where m: "mk_step (w, Some cur) c = (w1, st1)"
    by (cases "mk_step (w, Some cur) c")
  with Cons.prems have f: "foldl mk_step (w1, st1) cs = (w', r)" by simp
  have g1: "grows w1 w'" by (rule mk_fold_grows [OF f])
  show ?case
  proof (cases st1)
    case (Some cur1)
    from m Some have d: "node_at w cur = Some Dir"
      by (auto simp: mk_step_def split: if_splits)
    have "grows w w'" using mk_step_grows [OF m] g1 by (rule grows_trans)
    with d have d': "node_at w' cur = Some Dir" by (simp add: grows_def)
    have "walk_step w' (Some cur) c = Some cur1"
      using m Some d' d
      by (auto simp: mk_step_def walk_step_def split: if_splits option.splits node.splits)
    then have eq: "foldl (walk_step w') (Some cur) (c # cs) = foldl (walk_step w') (Some cur1) cs"
      by simp
    from f Some have "foldl mk_step (w1, Some cur1) cs = (w', r)" by simp
    from Cons.IH [OF this] show ?thesis unfolding eq .
  next
    case None
    with f have e: "w' = w1" "r = None" by (simp_all add: mk_fold_None)
    show ?thesis
    proof (cases "node_at w cur = Some Dir")
      case False
      with m have "w1 = w" by (simp add: mk_step_def)
      with False e show ?thesis by (simp add: walk_step_def walk_fold_None)
    next
      case True
      with m None have w1: "w1 = w" and nd: "node_at w (cur @ [c]) \<noteq> Some Dir"
        and c: "c \<noteq> []" "c \<noteq> ''.''" "c \<noteq> ''..''"
        by (auto simp: mk_step_def split: if_splits option.splits node.splits)
      have ws: "walk_step w' (Some cur) c = Some (cur @ [c])"
        using True c e w1 by (simp add: walk_step_def)
      show ?thesis
      proof (cases cs)
        case Nil
        with ws nd e w1 show ?thesis by simp
      next
        case (Cons c' cs')
        have "walk_step w' (Some (cur @ [c])) c' = None"
          using nd e w1 by (simp add: walk_step_def)
        with ws Cons e show ?thesis by (simp add: walk_fold_None)
      qed
    qed
  qed
qed

lemma makedirs_isdir:
  "makedirs w p = (r, w') \<Longrightarrow> isdir w' p = (r = Inr ())"
proof (cases "p = []")
  case True
  assume "makedirs w p = (r, w')"
  with True show ?thesis by (auto simp: makedirs_def isdir_def resolve_path_def)
next
  case False
  assume a: "makedirs w p = (r, w')"
  obtain w2 st where f: "foldl mk_step (w, Some []) (str_split CHR ''/'' p) = (w2, st)"
    by (cases "foldl mk_step (w, Some []) (str_split CHR ''/'' p)")
  from a f False have w2: "w2 = w'"
    by (auto simp: makedirs_def split: option.splits if_splits)
  from mk_fold_walk [OF f] a f False w2 show ?thesis
    by (auto simp: makedirs_def isdir_def resolve_path_def split: option.splits if_splits)
qed

lemma makedirs_grows: "makedirs w p = (r, w') \<Longrightarrow> grows w w'"
proof (cases "p = []")
  case True
  assume "makedirs w p = (r, w')"
  with True show ?thesis by (auto simp: makedirs_def grows_refl)
next
  case False
  assume a: "makedirs w p = (r, w')"
  obtain w2 st where f: "foldl mk_step (w, Some []) (str_split CHR ''/'' p) = (w2, st)"
    by (cases "foldl mk_step (w, Some []) (str_split CHR ''/'' p)")
  from a f False have w2: "w2 = w'"
    by (auto simp: makedirs_def split: option.splits if_splits)
  from mk_fold_grows [OF f] w2 show ?thesis by simp
qed

section \<open>Properties of the worker\<close>

lemma download_result:
  "fst (download_image_if_valid e s u p w) =
     (if valid_image e s u \<and> writable w p then Some u else None)"
  using writable_logged [of w u p]
  by (auto simp: download_image_if_valid_def valid_image_def Let_def write_file_Inl_iff
        dest: write_file_Inr_writable split: sum.splits)

lemma download_same: "same_dirs w (snd (download_image_if_valid e s u p w))"
  using same_dirs_logged [of w u]
  by (auto simp: download_image_if_valid_def Let_def split: sum.splits
        intro: same_dirs_trans write_file_same(1))

lemma download_requests:
  "requests (snd (download_image_if_valid e s u p w)) = requests w @ [u]"
  by (auto simp: download_image_if_valid_def Let_def logged_def split: sum.splits
        dest: write_file_same(2))




section \<open>Properties of the pipeline\<close>

lemma run_jobs_spec:
  "same_dirs w0 w \<Longrightarrow>
     fst (run_jobs e s js w) =
       map (\<lambda>j. if valid_image e s (fst j) \<and> writable w0 (snd j) then Some (fst j) else None) js
     \<and> same_dirs w0 (snd (run_jobs e s js w))
     \<and> requests (snd (run_jobs e s js w)) = requests w @ map fst js"
proof (induction js arbitrary: w)
  case Nil
  then show ?case by simp
next
  case (Cons j js)
  obtain r w1 where d: "download_image_if_valid e s (fst j) (snd j) w = (r, w1)"
    by (cases "download_image_if_valid e s (fst j) (snd j) w")
  have r: "r = (if valid_image e s (fst j) \<and> writable w0 (snd j) then Some (fst j) else None)"
    using download_result [of e s "fst j" "snd j" w] d writable_same [OF Cons.prems, of "snd j"]
    by simp
  have sd: "same_dirs w0 w1"
    using download_same [of w e s "fst j" "snd j"] d Cons.prems same_dirs_trans by fastforce
  have rq: "requests w1 = requests w @ [fst j]"
    using download_requests [of e s "fst j" "snd j" w] d by simp
  obtain rs w2 where rj: "run_jobs e s js w1 = (rs, w2)"
    by (cases "run_jobs e s js w1")
  from Cons.IH [OF sd] rj r rq d show ?case by simp
qed

lemma run_jobs_same: "same_dirs w (snd (run_jobs e s js w))"
  using run_jobs_spec [OF same_dirs_refl, of e s js w] by simp

lemma completion_order_perm: "mset (completion_order sched n) = mset [0..<n]"
proof -
  define named where "named = remdups (filter (\<lambda>i. i < n) sched)"
  have d: "distinct named" by (simp add: named_def)
  have sub: "set named \<subseteq> {0..<n}" by (auto simp: named_def)
  have "mset (filter (\<lambda>i. i \<in> set named) [0..<n]) = mset named"
  proof (rule iffD1 [OF set_eq_iff_mset_eq_distinct])
    show "distinct (filter (\<lambda>i. i \<in> set named) [0..<n])" by simp
    show "distinct named" by (rule d)
    show "set (filter (\<lambda>i. i \<in> set named) [0..<n]) = set named" using sub by auto
  qed
  moreover have "mset [0..<n] =
      mset (filter (\<lambda>i. i \<in> set named) [0..<n]) + mset (filter (\<lambda>i. i \<notin> set named) [0..<n])"
    by (simp only: mset_filter multiset_partition [symmetric])
  ultimately show ?thesis
    by (simp add: completion_order_def named_def [symmetric] Let_def)
qed

lemma mset_map_nth_perm:
  assumes "mset order = mset [0..<length xs]"
  shows "mset (map (\<lambda>i. xs ! i) order) = mset xs"
proof -
  have "mset (map (\<lambda>i. xs ! i) order) = image_mset (\<lambda>i. xs ! i) (mset order)" by simp
  also have "\<dots> = image_mset (\<lambda>i. xs ! i) (mset [0..<length xs])" using assms by simp
  also have "\<dots> = mset (map (\<lambda>i. xs ! i) [0..<length xs])" by simp
  also have "\<dots> = mset xs" by (simp add: map_nth)
  finally show ?thesis .
qed

lemma resolve_url_nonempty: "u \<noteq> [] \<Longrightarrow> resolve_url u b \<noteq> []"
  by (simp add: resolve_url_def)

lemma potential_image_urls_nonempty: "u \<in> set (potential_image_urls soup) \<Longrightarrow> u \<noteq> []"
  by (auto simp: potential_image_urls_def tag_candidates_def split: option.splits if_splits)

lemma successes_of_jobs:
  assumes "\<forall>u \<in> set urls. u \<noteq> []"
  shows "map the (filter truthy
           (map (\<lambda>j. if valid_image e s (fst j) \<and> writable w (snd j) then Some (fst j) else None)
              (jobs_of urls b l)))
         = map (\<lambda>u. resolve_url u b)
             (filter (\<lambda>u. valid_image e s (resolve_url u b)
                          \<and> writable w (path_join l (sanitize_image_name u))) urls)"
  using assms
  by (induction urls) (auto simp: jobs_of_def truthy_def resolve_url_nonempty)

lemma mset_successes:
  assumes "mset js' = mset js"
  shows "mset (map the (filter truthy (map g js'))) = mset (map the (filter truthy (map g js)))"
proof -
  have "mset (map the (filter truthy (map g js'))) =
        image_mset the (filter_mset truthy (image_mset g (mset js')))"
    by simp
  also have "\<dots> = image_mset the (filter_mset truthy (image_mset g (mset js)))"
    using assms by simp
  also have "\<dots> = mset (map the (filter truthy (map g js)))"
    by simp
  finally show ?thesis .
qed

text \<open>
  C3 (amended). Once the store directory has been created, \<open>scrape_images\<close> returns
  without raising for every document, every answer of the network, every decoder and
  every completion order, whatever requests, validations and writes fail; the list it
  returns holds, up to order, exactly the resolved URLs of the candidates whose
  request, validation and write succeed (a failed candidate is left out, a repeated
  one counted as often as it succeeds); and when it returns every candidate has been
  requested exactly once.
\<close>

theorem scrape_images_partial_failure:
  assumes "makedirs w (path_join ''downloads'' download_dir) = (Inr (), w1)"
  shows "\<exists>res w2 fetched.
           scrape_images e soup base_url s download_dir w = (Inr res, w2)
           \<and> mset res =
               mset (map (\<lambda>u. resolve_url u base_url)
                      (filter (\<lambda>u. valid_image e s (resolve_url u base_url)
                                   \<and> writable w1
                                        (path_join (path_join ''downloads'' download_dir)
                                           (sanitize_image_name u)))
                         (potential_image_urls soup)))
           \<and> requests w2 = requests w1 @ fetched
           \<and> mset fetched = mset (map (\<lambda>u. resolve_url u base_url) (potential_image_urls soup))"
proof -
  define l where "l = path_join ''downloads'' download_dir"
  define urls where "urls = potential_image_urls soup"
  define futures where "futures = jobs_of urls base_url l"
  define ran where
    "ran = map (\<lambda>i. futures ! i) (completion_order (completion e) (length futures))"
  define g where
    "g = (\<lambda>j. if valid_image e s (fst j) \<and> writable w1 (snd j) then Some (fst j) else None)"
  obtain results w2 where rj: "run_jobs e s ran w1 = (results, w2)"
    by (cases "run_jobs e s ran w1")
  have perm: "mset ran = mset futures"
    unfolding ran_def by (rule mset_map_nth_perm) (rule completion_order_perm)
  from run_jobs_spec [OF same_dirs_refl, of e s ran w1] rj
  have res: "results = map g ran" and rq: "requests w2 = requests w1 @ map fst ran"
    by (simp_all add: g_def)
  have si: "scrape_images e soup base_url s download_dir w
              = (Inr (map the (filter truthy results)), w2)"
    using assms rj
    by (simp add: scrape_images_def Let_def l_def urls_def futures_def ran_def)
  have ne: "\<forall>u \<in> set urls. u \<noteq> []"
    using potential_image_urls_nonempty by (auto simp: urls_def)
  have "mset (map the (filter truthy results)) = mset (map the (filter truthy (map g futures)))"
    unfolding res by (rule mset_successes [OF perm])
  also have "map the (filter truthy (map g futures))
               = map (\<lambda>u. resolve_url u base_url)
                   (filter (\<lambda>u. valid_image e s (resolve_url u base_url)
                                \<and> writable w1 (path_join l (sanitize_image_name u))) urls)"
    unfolding g_def futures_def by (rule successes_of_jobs [OF ne])
  finally have m: "mset (map the (filter truthy results)) =
      mset (map (\<lambda>u. resolve_url u base_url)
              (filter (\<lambda>u. valid_image e s (resolve_url u base_url)
                           \<and> writable w1 (path_join l (sanitize_image_name u))) urls))" .
  have "mset (map fst ran) = image_mset fst (mset ran)" by simp
  also have "\<dots> = image_mset fst (mset futures)" using perm by simp
  also have "\<dots> = mset (map fst futures)" by simp
  also have "map fst futures = map (\<lambda>u. resolve_url u base_url) urls"
    by (simp add: futures_def jobs_of_def comp_def)
  finally have f: "mset (map fst ran) = mset (map (\<lambda>u. resolve_url u base_url) urls)" .
  from si m rq f show ?thesis
    unfolding l_def urls_def by blast
qed

text \<open>
  The theorem on the gallery: five candidates, two failed requests, one payload that
  is not an image, and the two others returned.
\<close>

theorem scrape_images_partial_failure_witness:
  "makedirs empty_world (path_join ''downloads'' ''229442d1a65f7a06b993519ba8d68246'')
     = (Inr (), gallery_store)
   \<and> potential_image_urls gallery_soup
       = [''/a.gif'', ''b.png'', ''/c.jpg'', ''//cdn.site.com/d.gif'', ''https://site.com/e.GIF'']
   \<and> (\<exists>res w2.
         scrape_images demo_env gallery_soup ''https://site.com'' demo_session
           ''229442d1a65f7a06b993519ba8d68246'' empty_world = (Inr res, w2)
         \<and> mset res = {#''https://site.com/a.gif'', ''https://site.com/e.GIF''#})"
proof -
  have mk: "makedirs empty_world (path_join ''downloads'' ''229442d1a65f7a06b993519ba8d68246'')
     = (Inr (), gallery_store)"
    by code_simp
  have urls: "potential_image_urls gallery_soup
       = [''/a.gif'', ''b.png'', ''/c.jpg'', ''//cdn.site.com/d.gif'', ''https://site.com/e.GIF'']"
    by code_simp
  have ok: "map (\<lambda>u. resolve_url u ''https://site.com'')
              (filter (\<lambda>u. valid_image demo_env demo_session (resolve_url u ''https://site.com'')
                           \<and> writable gallery_store
                                (path_join (path_join ''downloads'' ''229442d1a65f7a06b993519ba8d68246'')
                                   (sanitize_image_name u)))
                 (potential_image_urls gallery_soup))
            = [''https://site.com/a.gif'', ''https://site.com/e.GIF'']"
    by code_simp
  from scrape_images_partial_failure [OF mk, of demo_env gallery_soup "''https://site.com''" demo_session]
  obtain res w2 where
    "scrape_images demo_env gallery_soup ''https://site.com'' demo_session
           ''229442d1a65f7a06b993519ba8d68246'' empty_world = (Inr res, w2)"
    "mset res = mset (map (\<lambda>u. resolve_url u ''https://site.com'')
              (filter (\<lambda>u. valid_image demo_env demo_session (resolve_url u ''https://site.com'')
                           \<and> writable gallery_store
                                (path_join (path_join ''downloads'' ''229442d1a65f7a06b993519ba8d68246'')
                                   (sanitize_image_name u)))
                 (potential_image_urls gallery_soup)))"
    by blast
  with ok have "\<exists>res w2.
         scrape_images demo_env gallery_soup ''https://site.com'' demo_session
           ''229442d1a65f7a06b993519ba8d68246'' empty_world = (Inr res, w2)
         \<and> mset res = {#''https://site.com/a.gif'', ''https://site.com/e.GIF''#}"
    by auto
  with mk urls show ?thesis by blast
qed

text \<open>
  C3 as stated fails twice. On the page \<open>https://site.com/query\<close> the one candidate is
  fetched and decodes as a GIF, yet the list returned is empty, because the write of
  its bytes raised. And in a store whose \<open>downloads\<close> is a regular file the call raises
  \<open>OSError\<close>, whatever the candidates are.
\<close>

theorem scrape_images_omission_counterexample:
  "potential_image_urls query_soup = [''/img/?f=g.gif'']
   \<and> resolve_url ''/img/?f=g.gif'' ''https://site.com'' = ''https://site.com/img/?f=g.gif''
   \<and> fetch demo_env demo_session ''https://site.com/img/?f=g.gif'' = Inr ''GIF89a-third''
   \<and> pil_open demo_env ''GIF89a-third'' = Inr ''GIF''
   \<and> ''GIF'' \<in> set accepted_formats
   \<and> fst (scrape_images demo_env query_soup ''https://site.com'' demo_session
             ''2e3f09d79f7403d190ffb0693a51c312'' empty_world) = Inr []
   \<and> fst (scrape_images demo_env gallery_soup ''https://site.com'' demo_session
             ''229442d1a65f7a06b993519ba8d68246'' blocked_world) = Inl OSError"
  by code_simp



text \<open>
  C6 (amended). A failure of the creation of the store directory is raised out of
  \<open>scrape_images\<close> and out of \<open>scrape\<close>, before any resource is requested. A failure of
  the write of validated bytes is not: it is caught in \<open>download_image_if_valid\<close>, which
  returns \<open>None\<close>, and once the directory exists \<open>scrape_images\<close> returns without
  raising whatever the writes do.
\<close>

theorem filesystem_failures:
  "(makedirs w (path_join ''downloads'' download_dir) = (Inl ex, w1) \<longrightarrow>
      scrape_images e soup base_url s download_dir w = (Inl ex, w1)
      \<and> requests w1 = requests w)
   \<and> (fetch e \<lparr>user_agent = random_user_agent e, referer = url\<rparr> url = Inr page
        \<and> base_domain url = Inr base
        \<and> makedirs (logged w url) (path_join ''downloads'' (sanitize_url e url)) = (Inl ex, w1) \<longrightarrow>
      scrape e url w = (Inl ex, w1))
   \<and> (fetch e s image_url = Inr content \<and> pil_open e content = Inr fmt
        \<and> fmt \<in> set accepted_formats
        \<and> write_file (logged w image_url) save_path content = Inl ex \<longrightarrow>
      download_image_if_valid e s image_url save_path w = (None, logged w image_url))
   \<and> (makedirs w (path_join ''downloads'' download_dir) = (Inr (), w1) \<longrightarrow>
        (\<exists>res w2. scrape_images e soup base_url s download_dir w = (Inr res, w2)))"
proof -
  have a: "makedirs w (path_join ''downloads'' download_dir) = (Inl ex, w1) \<longrightarrow>
      scrape_images e soup base_url s download_dir w = (Inl ex, w1)
      \<and> requests w1 = requests w"
    using makedirs_grows [of w "path_join ''downloads'' download_dir" "Inl ex" w1]
    by (simp add: scrape_images_def Let_def grows_def)
  have b: "fetch e \<lparr>user_agent = random_user_agent e, referer = url\<rparr> url = Inr page
        \<and> base_domain url = Inr base
        \<and> makedirs (logged w url) (path_join ''downloads'' (sanitize_url e url)) = (Inl ex, w1) \<longrightarrow>
      scrape e url w = (Inl ex, w1)"
    by (simp add: scrape_def scrape_images_def Let_def)
  have c: "fetch e s image_url = Inr content \<and> pil_open e content = Inr fmt
        \<and> fmt \<in> set accepted_formats
        \<and> write_file (logged w image_url) save_path content = Inl ex \<longrightarrow>
      download_image_if_valid e s image_url save_path w = (None, logged w image_url)"
    by (simp add: download_image_if_valid_def Let_def)
  have d: "makedirs w (path_join ''downloads'' download_dir) = (Inr (), w1) \<longrightarrow>
        (\<exists>res w2. scrape_images e soup base_url s download_dir w = (Inr res, w2))"
  proof
    assume mk: "makedirs w (path_join ''downloads'' download_dir) = (Inr (), w1)"
    obtain r w2 where si: "scrape_images e soup base_url s download_dir w = (r, w2)"
      by (cases "scrape_images e soup base_url s download_dir w")
    from mk si show "\<exists>res w2. scrape_images e soup base_url s download_dir w = (Inr res, w2)"
      by (auto simp: scrape_images_def Let_def split: prod.splits)
  qed
  from a b c d show ?thesis by blast
qed

text \<open>
  The theorem on the sample site: a store whose \<open>downloads\<close> is a regular file, and the
  candidate whose destination is the store directory.
\<close>

theorem filesystem_failures_witness:
  "makedirs blocked_world (path_join ''downloads'' ''229442d1a65f7a06b993519ba8d68246'')
     = (Inl OSError, blocked_world)
   \<and> scrape_images demo_env gallery_soup ''https://site.com'' demo_session
        ''229442d1a65f7a06b993519ba8d68246'' blocked_world = (Inl OSError, blocked_world)
   \<and> fetch demo_env \<lparr>user_agent = random_user_agent demo_env,
                      referer = ''https://site.com/gallery''\<rparr> ''https://site.com/gallery''
       = Inr ''<html>gallery</html>''
   \<and> base_domain ''https://site.com/gallery'' = Inr ''https://site.com''
   \<and> makedirs (logged blocked_world ''https://site.com/gallery'')
        (path_join ''downloads'' (sanitize_url demo_env ''https://site.com/gallery''))
       = (Inl OSError, logged blocked_world ''https://site.com/gallery'')
   \<and> scrape demo_env ''https://site.com/gallery'' blocked_world
       = (Inl OSError, logged blocked_world ''https://site.com/gallery'')
   \<and> fetch demo_env demo_session ''https://site.com/img/?f=g.gif'' = Inr ''GIF89a-third''
   \<and> pil_open demo_env ''GIF89a-third'' = Inr ''GIF''
   \<and> ''GIF'' \<in> set accepted_formats
   \<and> write_file (logged query_store ''https://site.com/img/?f=g.gif'')
        ''downloads/2e3f09d79f7403d190ffb0693a51c312/'' ''GIF89a-third'' = Inl OSError
   \<and> download_image_if_valid demo_env demo_session ''https://site.com/img/?f=g.gif''
        ''downloads/2e3f09d79f7403d190ffb0693a51c312/'' query_store
       = (None, logged query_store ''https://site.com/img/?f=g.gif'')
   \<and> makedirs empty_world (path_join ''downloads'' ''2e3f09d79f7403d190ffb0693a51c312'')
       = (Inr (), query_store\<lparr>requests := []\<rparr>)
   \<and> (\<exists>res w2. scrape_images demo_env query_soup ''https://site.com'' demo_session
                  ''2e3f09d79f7403d190ffb0693a51c312'' empty_world = (Inr res, w2))"
proof -
  have m1: "makedirs blocked_world (path_join ''downloads'' ''229442d1a65f7a06b993519ba8d68246'')
     = (Inl OSError, blocked_world)"
    by code_simp
  have f2: "fetch demo_env \<lparr>user_agent = random_user_agent demo_env,
                      referer = ''https://site.com/gallery''\<rparr> ''https://site.com/gallery''
       = Inr ''<html>gallery</html>''"
    by code_simp
  have b2: "base_domain ''https://site.com/gallery'' = Inr ''https://site.com''"
    by code_simp
  have m2: "makedirs (logged blocked_world ''https://site.com/gallery'')
        (path_join ''downloads'' (sanitize_url demo_env ''https://site.com/gallery''))
       = (Inl OSError, logged blocked_world ''https://site.com/gallery'')"
    by code_simp
  have f3: "fetch demo_env demo_session ''https://site.com/img/?f=g.gif'' = Inr ''GIF89a-third''"
    by code_simp
  have p3: "pil_open demo_env ''GIF89a-third'' = Inr ''GIF''"
    by code_simp
  have a3: "''GIF'' \<in> set accepted_formats"
    by code_simp
  have w3: "write_file (logged query_store ''https://site.com/img/?f=g.gif'')
        ''downloads/2e3f09d79f7403d190ffb0693a51c312/'' ''GIF89a-third'' = Inl OSError"
    by code_simp
  have m4: "makedirs empty_world (path_join ''downloads'' ''2e3f09d79f7403d190ffb0693a51c312'')
       = (Inr (), query_store\<lparr>requests := []\<rparr>)"
    by code_simp
  have r1: "scrape_images demo_env gallery_soup ''https://site.com'' demo_session
        ''229442d1a65f7a06b993519ba8d68246'' blocked_world = (Inl OSError, blocked_world)"
    using filesystem_failures [of blocked_world "''229442d1a65f7a06b993519ba8d68246''" OSError
        blocked_world demo_env gallery_soup "''https://site.com''" demo_session] m1
    by blast
  have r2: "scrape demo_env ''https://site.com/gallery'' blocked_world
       = (Inl OSError, logged blocked_world ''https://site.com/gallery'')"
    using filesystem_failures [where e = demo_env and url = "''https://site.com/gallery''"
        and page = "''<html>gallery</html>''" and base = "''https://site.com''"
        and w = blocked_world and ex = OSError
        and ?w1.0 = "logged blocked_world ''https://site.com/gallery''"] f2 b2 m2
    by blast
  have r3: "download_image_if_valid demo_env demo_session ''https://site.com/img/?f=g.gif''
        ''downloads/2e3f09d79f7403d190ffb0693a51c312/'' query_store
       = (None, logged query_store ''https://site.com/img/?f=g.gif'')"
    using filesystem_failures [where e = demo_env and s = demo_session
        and image_url = "''https://site.com/img/?f=g.gif''" and content = "''GIF89a-third''"
        and fmt = "''GIF''" and w = query_store and ex = OSError
        and save_path = "''downloads/2e3f09d79f7403d190ffb0693a51c312/''"] f3 p3 a3 w3
    by blast
  have r4: "\<exists>res w2. scrape_images demo_env query_soup ''https://site.com'' demo_session
                  ''2e3f09d79f7403d190ffb0693a51c312'' empty_world = (Inr res, w2)"
    using filesystem_failures [where w = empty_world
        and download_dir = "''2e3f09d79f7403d190ffb0693a51c312''"
        and ?w1.0 = "query_store\<lparr>requests := []\<rparr>" and e = demo_env and soup = query_soup
        and base_url = "''https://site.com''" and s = demo_session] m4
    by blast
  from m1 r1 f2 b2 m2 r2 f3 p3 a3 w3 r3 m4 r4 show ?thesis by blast
qed

text \<open>
  C6 as stated fails: on the page \<open>https://site.com/query\<close> the write of the validated
  bytes raises \<open>OSError\<close>, and \<open>scrape\<close> returns the location all the same.
\<close>

theorem write_failure_swallowed_counterexample:
  "fetch demo_env \<lparr>user_agent = random_user_agent demo_env, referer = ''https://site.com/query''\<rparr>
       ''https://site.com/img/?f=g.gif'' = Inr ''GIF89a-third''
   \<and> pil_open demo_env ''GIF89a-third'' = Inr ''GIF''
   \<and> ''GIF'' \<in> set accepted_formats
   \<and> write_file (logged query_store ''https://site.com/img/?f=g.gif'')
        (path_join (path_join ''downloads'' ''2e3f09d79f7403d190ffb0693a51c312'')
           (sanitize_image_name ''/img/?f=g.gif''))
        ''GIF89a-third'' = Inl OSError
   \<and> scrape demo_env ''https://site.com/query'' empty_world
       = (Inr (location ''2e3f09d79f7403d190ffb0693a51c312''),
          logged query_store ''https://site.com/img/?f=g.gif'')"
  by code_simp

section \<open>Properties of the endpoints\<close>

lemma scrape_images_isdir:
  assumes "scrape_images e soup b s dd w = (r, w')"
  shows "isdir w' (path_join ''downloads'' dd) = (\<exists>res. r = Inr res)"
proof -
  obtain mr w1 where mk: "makedirs w (path_join ''downloads'' dd) = (mr, w1)"
    by (cases "makedirs w (path_join ''downloads'' dd)")
  show ?thesis
  proof (cases mr)
    case (Inl ex)
    with assms mk have "r = Inl ex" "w' = w1"
      by (simp_all add: scrape_images_def Let_def)
    with makedirs_isdir [OF mk] Inl show ?thesis by auto
  next
    case (Inr u)
    define js where "js = map (\<lambda>i. jobs_of (potential_image_urls soup) b (path_join ''downloads'' dd) ! i)
       (completion_order (completion e)
          (length (jobs_of (potential_image_urls soup) b (path_join ''downloads'' dd))))"
    obtain rs w2 where rj: "run_jobs e s js w1 = (rs, w2)" by (cases "run_jobs e s js w1")
    from assms mk Inr rj have r: "r = Inr (map the (filter truthy rs))" and w': "w' = w2"
      by (simp_all add: scrape_images_def Let_def js_def)
    have "same_dirs w1 w2" using run_jobs_same [of w1 e s js] rj by simp
    from isdir_same [OF this] makedirs_isdir [OF mk] Inr r w' show ?thesis by simp
  qed
qed

lemma scrape_isdir:
  assumes "scrape e url w = (r, w')"
    and "\<not> isdir w (path_join ''downloads'' (sanitize_url e url))"
  shows "isdir w' (path_join ''downloads'' (sanitize_url e url))
           = (r = Inr (location (sanitize_url e url)))"
proof -
  define s where "s = \<lparr>user_agent = random_user_agent e, referer = url\<rparr>"
  show ?thesis
  proof (cases "fetch e s url")
    case (Inl ex)
    with assms(1) have "r = Inr []" "w' = logged w url"
      by (simp_all add: scrape_def Let_def s_def)
    with assms(2) show ?thesis by (auto simp: isdir_logged location_def)
  next
    case (Inr content)
    show ?thesis
    proof (cases "base_domain url")
      case (Inl ex)
      with Inr assms(1) have "r = Inl ex" "w' = logged w url"
        by (simp_all add: scrape_def Let_def s_def)
      with assms(2) show ?thesis by (simp add: isdir_logged)
    next
      case base: (Inr base)
      obtain ri w2 where si: "scrape_images e (html_parser e content) base s (sanitize_url e url)
                                (logged w url) = (ri, w2)"
        by (cases "scrape_images e (html_parser e content) base s (sanitize_url e url) (logged w url)")
      from scrape_images_isdir [OF si]
      have d: "isdir w2 (path_join ''downloads'' (sanitize_url e url)) = (\<exists>res. ri = Inr res)" .
      from Inr base si assms(1) have "w' = w2"
        and "r = (case ri of Inl ex \<Rightarrow> Inl ex | Inr imgs \<Rightarrow> Inr (location (sanitize_url e url)))"
        by (auto simp: scrape_def Let_def s_def split: sum.splits)
      with d show ?thesis by (cases ri) auto
    qed
  qed
qed

text \<open>
  C4. Take any first call of \<open>scrape_images_endpoint\<close> on a URL, and a second call on
  the same URL with the same digest function. If the store directory of the URL exists
  after the first call, the second call leaves the world as it is (no request is
  logged, no node changes) and returns what the first call returned, which is the
  location of the hashed directory. The directory does exist whenever the first call
  returned that location.
\<close>

theorem scrape_images_endpoint_idempotent:
  assumes "scrape_images_endpoint e1 url w0 = (r1, w1)"
    and "md5_hexdigest e2 = md5_hexdigest e1"
  shows "(isdir w1 (path_join ''downloads'' (sanitize_url e1 url)) \<longrightarrow>
            scrape_images_endpoint e2 url w1 = (r1, w1)
            \<and> r1 = Inr (location (sanitize_url e1 url))
            \<and> requests (snd (scrape_images_endpoint e2 url w1)) = requests w1)
         \<and> (r1 = Inr (location (sanitize_url e1 url)) \<longrightarrow>
              isdir w1 (path_join ''downloads'' (sanitize_url e1 url)))"
proof -
  have h: "sanitize_url e2 url = sanitize_url e1 url"
    using assms(2) by (simp add: sanitize_url_def)
  have r: "isdir w1 (path_join ''downloads'' (sanitize_url e1 url))
             = (r1 = Inr (location (sanitize_url e1 url)))"
  proof (cases "isdir w0 (path_join ''downloads'' (sanitize_url e1 url))")
    case True
    with assms(1) show ?thesis by (auto simp: scrape_images_endpoint_def Let_def)
  next
    case False
    with assms(1) have "scrape e1 url w0 = (r1, w1)"
      by (simp add: scrape_images_endpoint_def Let_def)
    from scrape_isdir [OF this False] show ?thesis .
  qed
  have "isdir w1 (path_join ''downloads'' (sanitize_url e1 url)) \<Longrightarrow>
          scrape_images_endpoint e2 url w1 = (r1, w1)"
    using r h by (simp add: scrape_images_endpoint_def Let_def)
  with r show ?thesis by auto
qed

text \<open>
  The theorem on the sample site: the gallery scraped from an empty store, then asked
  for again under another user agent and completion order.
\<close>

theorem scrape_images_endpoint_idempotent_witness:
  "scrape_images_endpoint demo_env ''https://site.com/gallery'' empty_world
     = (Inr (location ''229442d1a65f7a06b993519ba8d68246''), gallery_scraped)
   \<and> md5_hexdigest (demo_env\<lparr>random_choice := 0, completion := []\<rparr>) = md5_hexdigest demo_env
   \<and> isdir gallery_scraped (path_join ''downloads'' (sanitize_url demo_env ''https://site.com/gallery''))
   \<and> scrape_images_endpoint (demo_env\<lparr>random_choice := 0, completion := []\<rparr>)
        ''https://site.com/gallery'' gallery_scraped
     = (Inr (location ''229442d1a65f7a06b993519ba8d68246''), gallery_scraped)
   \<and> requests (snd (scrape_images_endpoint (demo_env\<lparr>random_choice := 0, completion := []\<rparr>)
        ''https://site.com/gallery'' gallery_scraped)) = requests gallery_scraped"
proof -
  have first: "scrape_images_endpoint demo_env ''https://site.com/gallery'' empty_world
     = (Inr (location ''229442d1a65f7a06b993519ba8d68246''), gallery_scraped)"
    by code_simp
  have md5: "md5_hexdigest (demo_env\<lparr>random_choice := 0, completion := []\<rparr>) = md5_hexdigest demo_env"
    by simp
  have dir: "isdir gallery_scraped
               (path_join ''downloads'' (sanitize_url demo_env ''https://site.com/gallery''))"
    by code_simp
  from scrape_images_endpoint_idempotent [OF first md5] dir first md5 show ?thesis by simp
qed

text \<open>
  C7. For every identity string, \<open>get_downloads\<close> raises \<open>HTTPException(404, "Directory
  not found")\<close> when the store directory is absent; when it exists, \<open>os.listdir\<close> gives
  its entries, and \<open>get_downloads\<close> raises the different exception
  \<open>HTTPException(404, "No images found in the directory")\<close> when no entry has a
  lowercase name ending in a supported image extension, and otherwise returns exactly
  the qualifying entries, each as \<open>/downloads/<identity>/<name>\<close>.
\<close>

theorem get_downloads_spec:
  "(\<not> isdir w (path_join ''downloads'' hash_value) \<longrightarrow>
      get_downloads w hash_value = Inl (HTTPException 404 ''Directory not found''))
   \<and> (isdir w (path_join ''downloads'' hash_value) \<longrightarrow>
        (\<exists>names. listdir w (path_join ''downloads'' hash_value) = Inr names
           \<and> (filter has_image_extension names = [] \<longrightarrow>
                get_downloads w hash_value
                  = Inl (HTTPException 404 ''No images found in the directory''))
           \<and> (filter has_image_extension names \<noteq> [] \<longrightarrow>
                get_downloads w hash_value
                  = Inr [(''images'',
                          map (\<lambda>filename. ''/downloads/'' @ hash_value @ ''/'' @ filename)
                            (filter has_image_extension names))])))
   \<and> HTTPException 404 ''Directory not found''
       \<noteq> HTTPException 404 ''No images found in the directory''
   \<and> has_image_extension name
       = (\<exists>ext \<in> set [''.jpg'', ''.jpeg'', ''.png'', ''.gif'', ''.bmp'', ''.webp''].
            endswith (lower name) ext)"
proof -
  have a: "\<not> isdir w (path_join ''downloads'' hash_value) \<longrightarrow>
      get_downloads w hash_value = Inl (HTTPException 404 ''Directory not found'')"
    by (simp add: get_downloads_def)
  have b: "isdir w (path_join ''downloads'' hash_value) \<longrightarrow>
        (\<exists>names. listdir w (path_join ''downloads'' hash_value) = Inr names
           \<and> (filter has_image_extension names = [] \<longrightarrow>
                get_downloads w hash_value
                  = Inl (HTTPException 404 ''No images found in the directory''))
           \<and> (filter has_image_extension names \<noteq> [] \<longrightarrow>
                get_downloads w hash_value
                  = Inr [(''images'',
                          map (\<lambda>filename. ''/downloads/'' @ hash_value @ ''/'' @ filename)
                            (filter has_image_extension names))]))"
  proof
    assume d: "isdir w (path_join ''downloads'' hash_value)"
    then obtain names where n: "listdir w (path_join ''downloads'' hash_value) = Inr names"
      using listdir_isdir by blast
    with d show "\<exists>names. listdir w (path_join ''downloads'' hash_value) = Inr names
           \<and> (filter has_image_extension names = [] \<longrightarrow>
                get_downloads w hash_value
                  = Inl (HTTPException 404 ''No images found in the directory''))
           \<and> (filter has_image_extension names \<noteq> [] \<longrightarrow>
                get_downloads w hash_value
                  = Inr [(''images'',
                          map (\<lambda>filename. ''/downloads/'' @ hash_value @ ''/'' @ filename)
                            (filter has_image_extension names))])"
      by (simp add: get_downloads_def Let_def)
  qed
  have c: "HTTPException 404 ''Directory not found''
       \<noteq> HTTPException 404 ''No images found in the directory''"
    by simp
  have d: "has_image_extension name
       = (\<exists>ext \<in> set [''.jpg'', ''.jpeg'', ''.png'', ''.gif'', ''.bmp'', ''.webp''].
            endswith (lower name) ext)"
    by (simp add: has_image_extension_def image_extensions_def)
  from a b c d show ?thesis by blast
qed

text \<open>
  The theorem on the sample site: an identity with no directory, a directory with no
  image, and a directory with two images and a text file.
\<close>

theorem get_downloads_spec_witness:
  "\<not> isdir gallery_done (path_join ''downloads'' ''2e3f09d79f7403d190ffb0693a51c312'')
   \<and> get_downloads gallery_done ''2e3f09d79f7403d190ffb0693a51c312''
       = Inl (HTTPException 404 ''Directory not found'')
   \<and> isdir query_store (path_join ''downloads'' ''2e3f09d79f7403d190ffb0693a51c312'')
   \<and> listdir query_store (path_join ''downloads'' ''2e3f09d79f7403d190ffb0693a51c312'') = Inr []
   \<and> get_downloads query_store ''2e3f09d79f7403d190ffb0693a51c312''
       = Inl (HTTPException 404 ''No images found in the directory'')
   \<and> isdir gallery_done (path_join ''downloads'' ''229442d1a65f7a06b993519ba8d68246'')
   \<and> listdir gallery_done (path_join ''downloads'' ''229442d1a65f7a06b993519ba8d68246'')
       = Inr [''e.GIF'', ''a.gif'', ''notes.txt'']
   \<and> get_downloads gallery_done ''229442d1a65f7a06b993519ba8d68246''
       = Inr [(''images'', [''/downloads/229442d1a65f7a06b993519ba8d68246/e.GIF'',
                            ''/downloads/229442d1a65f7a06b993519ba8d68246/a.gif''])]"
proof -
  have n: "\<not> isdir gallery_done (path_join ''downloads'' ''2e3f09d79f7403d190ffb0693a51c312'')"
    by code_simp
  have q: "isdir query_store (path_join ''downloads'' ''2e3f09d79f7403d190ffb0693a51c312'')"
    by code_simp
  have ql: "listdir query_store (path_join ''downloads'' ''2e3f09d79f7403d190ffb0693a51c312'') = Inr []"
    by code_simp
  have g: "isdir gallery_done (path_join ''downloads'' ''229442d1a65f7a06b993519ba8d68246'')"
    by code_simp
  have gl: "listdir gallery_done (path_join ''downloads'' ''229442d1a65f7a06b993519ba8d68246'')
       = Inr [''e.GIF'', ''a.gif'', ''notes.txt'']"
    by code_simp
  have f: "filter has_image_extension [''e.GIF'', ''a.gif'', ''notes.txt''] = [''e.GIF'', ''a.gif'']"
    by code_simp
  have r1: "get_downloads gallery_done ''2e3f09d79f7403d190ffb0693a51c312''
       = Inl (HTTPException 404 ''Directory not found'')"
    using get_downloads_spec [of gallery_done "''2e3f09d79f7403d190ffb0693a51c312''"] n by blast
  have r2: "get_downloads query_store ''2e3f09d79f7403d190ffb0693a51c312''
       = Inl (HTTPException 404 ''No images found in the directory'')"
    using get_downloads_spec [of query_store "''2e3f09d79f7403d190ffb0693a51c312''"] q ql by auto
  have r3: "get_downloads gallery_done ''229442d1a65f7a06b993519ba8d68246''
       = Inr [(''images'', [''/downloads/229442d1a65f7a06b993519ba8d68246/e.GIF'',
                            ''/downloads/229442d1a65f7a06b993519ba8d68246/a.gif''])]"
    using get_downloads_spec [of gallery_done "''229442d1a65f7a06b993519ba8d68246''"] g gl f by auto
  from n q ql g gl r1 r2 r3 show ?thesis by blast
qed

end
